theory Spec2Isabelle
  imports Main
begin

section \<open>JavaScript values and the operators the worker uses\<close>

text \<open>
  The worker (\<^verbatim>\<open>systems/infinity-crawler/worker/worker.js\<close>) handles whatever
  \<^verbatim>\<open>response.json()\<close> delivers, so values are dynamically typed. \<open>JUndefined\<close> is
  what a missing property reads as; it never occurs inside parsed JSON. Numbers are the
  integer-valued ones (\<^verbatim>\<open>html.length\<close> is one); an object is its list of own
  properties.
\<close>

datatype jsval =
    JUndefined
  | JNull
  | JBool bool
  | JNum int
  | JStr string
  | JArr "jsval list"
  | JObj "(string \<times> jsval) list"

text \<open>
  What a \<^verbatim>\<open>throw\<close> carries: the TypeError of reading a property of
  \<^verbatim>\<open>null\<close>/\<^verbatim>\<open>undefined\<close> (with the property's name), or an error raised by
  the outside world (fetch, Playwright) with its message.
\<close>

datatype js_error = TypeError string | Thrown string

text \<open>\<^verbatim>\<open>v.k\<close> for the property names the worker reads (\<^verbatim>\<open>jobs\<close>, \<^verbatim>\<open>url\<close>, \<^verbatim>\<open>length\<close>).\<close>

fun get_prop :: "jsval \<Rightarrow> string \<Rightarrow> js_error + jsval" where
  "get_prop JUndefined k = Inl (TypeError k)"
| "get_prop JNull k = Inl (TypeError k)"
| "get_prop (JObj kvs) k = Inr (case map_of kvs k of None \<Rightarrow> JUndefined | Some v \<Rightarrow> v)"
| "get_prop (JArr xs) k = Inr (if k = ''length'' then JNum (int (length xs)) else JUndefined)"
| "get_prop (JStr s) k = Inr (if k = ''length'' then JNum (int (length s)) else JUndefined)"
| "get_prop (JBool b) k = Inr JUndefined"
| "get_prop (JNum n) k = Inr JUndefined"

text \<open>\<^verbatim>\<open>v[0]\<close>.\<close>

fun index0 :: "jsval \<Rightarrow> js_error + jsval" where
  "index0 JUndefined = Inl (TypeError ''0'')"
| "index0 JNull = Inl (TypeError ''0'')"
| "index0 (JArr xs) = Inr (case xs of [] \<Rightarrow> JUndefined | x # _ \<Rightarrow> x)"
| "index0 (JStr s) = Inr (case s of [] \<Rightarrow> JUndefined | c # _ \<Rightarrow> JStr [c])"
| "index0 (JObj kvs) = Inr (case map_of kvs ''0'' of None \<Rightarrow> JUndefined | Some v \<Rightarrow> v)"
| "index0 (JBool b) = Inr JUndefined"
| "index0 (JNum n) = Inr JUndefined"

fun truthy :: "jsval \<Rightarrow> bool" where
  "truthy JUndefined = False"
| "truthy JNull = False"
| "truthy (JBool b) = b"
| "truthy (JNum n) = (n \<noteq> 0)"
| "truthy (JStr s) = (s \<noteq> [])"
| "truthy (JArr xs) = True"
| "truthy (JObj kvs) = True"

text \<open>\<^verbatim>\<open>a || b\<close>.\<close>

definition js_or :: "jsval \<Rightarrow> jsval \<Rightarrow> jsval" where
  "js_or a b = (if truthy a then a else b)"

text \<open>
  \<^verbatim>\<open>v > 0\<close>. On \<^verbatim>\<open>undefined\<close> (NaN), \<^verbatim>\<open>null\<close> (0), booleans and numbers the
  comparison is decided here; on a string, array or object operand JavaScript first
  coerces to a number (and may throw), which is taken as the parameter \<open>coerce\<close>.
\<close>

fun gt_zero :: "(jsval \<Rightarrow> js_error + bool) \<Rightarrow> jsval \<Rightarrow> js_error + bool" where
  "gt_zero coerce JUndefined = Inr False"
| "gt_zero coerce JNull = Inr False"
| "gt_zero coerce (JBool b) = Inr b"
| "gt_zero coerce (JNum n) = Inr (0 < n)"
| "gt_zero coerce v = coerce v"

text \<open>
  \<^verbatim>\<open>JSON.stringify(result)\<close> of the result object: properties whose value is
  \<^verbatim>\<open>undefined\<close> are left out. The JSON text is represented by the object it denotes.
\<close>

fun JSON_stringify :: "jsval \<Rightarrow> jsval" where
  "JSON_stringify (JObj kvs) = JObj (filter (\<lambda>kv. snd kv \<noteq> JUndefined) kvs)"
| "JSON_stringify v = v"

section \<open>Effects and computations\<close>

text \<open>
  The observable effects of the worker, in program order. \<open>LaunchBrowser\<close> is
  \<^verbatim>\<open>chromium.launch\<close> with \<^verbatim>\<open>browser.newPage\<close>, \<open>Goto\<close> is \<^verbatim>\<open>page.goto\<close> with
  \<^verbatim>\<open>page.content\<close>; the HTTP events carry the path under \<^verbatim>\<open>ORCHESTRATOR_URL\<close>.
\<close>

datatype event =
    HttpGet string
  | HttpPost string jsval
  | LaunchBrowser
  | Goto jsval
  | CloseBrowser
  | ConsoleLog jsval
  | ConsoleError string js_error
  | Sleep nat

text \<open>An \<^verbatim>\<open>async\<close> computation: the effects it performed, then a throw or a value.\<close>

type_synonym 'a comp = "event list \<times> (js_error + 'a)"

definition emit :: "event \<Rightarrow> unit comp" where
  "emit e = ([e], Inr ())"

definition lift :: "js_error + 'a \<Rightarrow> 'a comp" where
  "lift r = ([], r)"

definition bind :: "'a comp \<Rightarrow> ('a \<Rightarrow> 'b comp) \<Rightarrow> 'b comp" where
  "bind m f =
     (case m of
        (es, Inl e) \<Rightarrow> (es, Inl e)
      | (es, Inr a) \<Rightarrow> (case f a of (es', r) \<Rightarrow> (es @ es', r)))"

text \<open>\<^verbatim>\<open>try { m } catch (error) { h(error) }\<close>.\<close>

definition try_catch :: "'a comp \<Rightarrow> (js_error \<Rightarrow> 'a comp) \<Rightarrow> 'a comp" where
  "try_catch m h =
     (case m of
        (es, Inl e) \<Rightarrow> (case h e of (es', r) \<Rightarrow> (es @ es', r))
      | (es, Inr a) \<Rightarrow> (es, Inr a))"

section \<open>The outside world of one poll cycle\<close>

datatype poll_outcome =
    FetchRejects js_error
  | JsonRejects js_error
  | Data jsval

datatype post_outcome =
    PostRejects js_error
  | PostResponse nat

text \<open>
  What the network and the browser answer during one iteration of the loop:
  the outcome of \<^verbatim>\<open>fetch(.../jobs)\<close> and \<^verbatim>\<open>response.json()\<close>, whether launching the
  browser throws, what navigating to a URL gives (a throw or the page's HTML), whether
  closing throws, and the outcome of \<^verbatim>\<open>fetch(.../results)\<close> (a rejection or a response
  with its HTTP status).
\<close>

record world =
  poll :: poll_outcome
  launch_fails :: "js_error option"
  page :: "jsval \<Rightarrow> js_error + string"
  close_fails :: "js_error option"
  post :: post_outcome
  coerce_gt0 :: "jsval \<Rightarrow> js_error + bool"

definition launch :: "world \<Rightarrow> unit comp" where
  "launch w = ([LaunchBrowser], case launch_fails w of Some e \<Rightarrow> Inl e | None \<Rightarrow> Inr ())"

definition goto_content :: "world \<Rightarrow> jsval \<Rightarrow> string comp" where
  "goto_content w url = ([Goto url], page w url)"

definition close_browser :: "world \<Rightarrow> unit comp" where
  "close_browser w = ([CloseBrowser], case close_fails w of Some e \<Rightarrow> Inl e | None \<Rightarrow> Inr ())"

definition fetch_jobs :: "world \<Rightarrow> jsval comp" where
  "fetch_jobs w =
     ([HttpGet ''/jobs''],
      case poll w of FetchRejects e \<Rightarrow> Inl e | JsonRejects e \<Rightarrow> Inl e | Data d \<Rightarrow> Inr d)"

definition fetch_results :: "world \<Rightarrow> jsval \<Rightarrow> nat comp" where
  "fetch_results w body =
     ([HttpPost ''/results'' body],
      case post w of PostRejects e \<Rightarrow> Inl e | PostResponse s \<Rightarrow> Inr s)"

section \<open>worker.js\<close>

text \<open>
  The \<^verbatim>\<open>result\<close> object of \<^verbatim>\<open>processJob\<close>, from the job's \<^verbatim>\<open>url\<close> and the
  page's HTML.
\<close>

definition mk_result :: "jsval \<Rightarrow> string \<Rightarrow> jsval" where
  "mk_result url html =
     JObj [(''url'', url),
           (''bytes'', JNum (int (length html))),
           (''status'', JStr ''success''),
           (''html'', JStr html)]"

text \<open>
  \<^verbatim>\<open>processJob(job)\<close>: launch the browser, read \<^verbatim>\<open>job.url\<close>, load the page, close the
  browser, post the result (a rejected POST is caught and logged; the response of an
  answered one is dropped), log the result.
\<close>

definition processJob :: "world \<Rightarrow> jsval \<Rightarrow> unit comp" where
  "processJob w job =
     bind (launch w) (\<lambda>_.
     bind (lift (get_prop job ''url'')) (\<lambda>url.
     bind (goto_content w url) (\<lambda>html.
     bind (close_browser w) (\<lambda>_.
     bind (try_catch
             (bind (fetch_results w (JSON_stringify (mk_result url html))) (\<lambda>_. lift (Inr ())))
             (\<lambda>error. emit (ConsoleError ''Failed to post result:'' error))) (\<lambda>_.
     emit (ConsoleLog (JSON_stringify (mk_result url html))))))))"

text \<open>The body of the \<^verbatim>\<open>try\<close> block of \<^verbatim>\<open>run\<close>.\<close>

definition poll_and_process :: "world \<Rightarrow> unit comp" where
  "poll_and_process w =
     bind (fetch_jobs w) (\<lambda>data.
     bind (lift (get_prop data ''jobs'')) (\<lambda>v.
     let jobs = js_or v (JArr []) in
     bind (lift (get_prop jobs ''length'')) (\<lambda>len.
     bind (lift (gt_zero (coerce_gt0 w) len)) (\<lambda>nonempty.
     if nonempty
     then bind (lift (index0 jobs)) (\<lambda>job. processJob w job)
     else lift (Inr ())))))"

text \<open>One iteration of \<^verbatim>\<open>while (true)\<close>.\<close>

definition loop_body :: "world \<Rightarrow> unit comp" where
  "loop_body w =
     bind (try_catch (poll_and_process w)
             (\<lambda>error. emit (ConsoleError ''Error polling jobs:'' error))) (\<lambda>_.
     emit (Sleep 1000))"

text \<open>
  The loop has no exit and carries no variable from one iteration to the next. Its first
  \<open>n\<close> iterations, against the worlds of those iterations; a throw that escaped an
  iteration would end the loop there.
\<close>

fun run_loop :: "world list \<Rightarrow> unit comp" where
  "run_loop [] = ([], Inr ())"
| "run_loop (w # ws) = bind (loop_body w) (\<lambda>_. run_loop ws)"

definition run :: "world list \<Rightarrow> unit comp" where
  "run ws =
     bind (emit (ConsoleLog (JStr ''Crawler worker started, polling for jobs...''))) (\<lambda>_.
     run_loop ws)"

text \<open>Projections of a trace.\<close>

fun posts :: "event list \<Rightarrow> jsval list" where
  "posts [] = []"
| "posts (HttpPost p b # es) = b # posts es"
| "posts (e # es) = posts es"

fun sleeps :: "event list \<Rightarrow> nat list" where
  "sleeps [] = []"
| "sleeps (Sleep n # es) = n # sleeps es"
| "sleeps (e # es) = sleeps es"

fun gotos :: "event list \<Rightarrow> jsval list" where
  "gotos [] = []"
| "gotos (Goto u # es) = u # gotos es"
| "gotos (e # es) = gotos es"

fun polls :: "event list \<Rightarrow> nat" where
  "polls [] = 0"
| "polls (HttpGet p # es) = Suc (polls es)"
| "polls (e # es) = polls es"

fun launches :: "event list \<Rightarrow> nat" where
  "launches [] = 0"
| "launches (LaunchBrowser # es) = Suc (launches es)"
| "launches (e # es) = launches es"

section \<open>Concrete worlds\<close>

text \<open>
  Two jobs as the orchestrator would hand them out, and a cycle in which the poll returns
  both, the page loads and the orchestrator accepts the result.
\<close>

definition job_a :: jsval where
  "job_a = JObj [(''id'', JStr ''a''), (''url'', JStr ''http://x'')]"

definition job_b :: jsval where
  "job_b = JObj [(''id'', JStr ''b''), (''url'', JStr ''http://y'')]"

definition w0 :: world where
  "w0 = \<lparr> poll = Data (JObj [(''jobs'', JArr [job_a, job_b])]),
          launch_fails = None, page = (\<lambda>u. Inr ''<p>''), close_fails = None,
          post = PostResponse 200, coerce_gt0 = (\<lambda>v. Inr False) \<rparr>"


text \<open>The same world with the orchestrator answering the POST with HTTP status \<open>s\<close>.\<close>

definition respond :: "nat \<Rightarrow> world \<Rightarrow> world" where
  "respond s w = w\<lparr>post := PostResponse s\<rparr>"

text \<open>
  Variations: navigation fails, the POST is rejected by the network, the poll is rejected
  by the network, the poll returns no job.
\<close>

definition w_nav_fail :: world where
  "w_nav_fail = w0\<lparr>page := (\<lambda>u. Inl (Thrown ''net::ERR_NAME_NOT_RESOLVED''))\<rparr>"

definition w_post_fail :: world where
  "w_post_fail = w0\<lparr>post := PostRejects (Thrown ''fetch failed'')\<rparr>"

definition w_net_down :: world where
  "w_net_down = w0\<lparr>poll := FetchRejects (Thrown ''fetch failed'')\<rparr>"

definition w_no_jobs :: world where
  "w_no_jobs = w0\<lparr>poll := Data (JObj [(''jobs'', JArr [])])\<rparr>"

section \<open>launch_crawler_team.js\<close>

text \<open>Template literals print numbers in decimal.\<close>

definition digit_char :: "nat \<Rightarrow> char" where
  "digit_char d = ''0123456789'' ! d"

function string_of_nat :: "nat \<Rightarrow> string" where
  "string_of_nat n =
     (if n < 10 then [digit_char n] else string_of_nat (n div 10) @ [digit_char (n mod 10)])"
  by pat_completeness auto
termination
  by (relation "measure id") auto

text \<open>
  The signals a process can be sent; \<^verbatim>\<open>worker.kill\<close> takes the signal's name.
\<close>

datatype signal = SIGINT | SIGTERM | SIGKILL

text \<open>
  The observable effects of the launcher: console output, spawning a child process
  (command and arguments), sending a signal to the child at an index of \<^verbatim>\<open>workers\<close>,
  and \<^verbatim>\<open>process.exit\<close> with its status.
\<close>

datatype leffect =
    Log string
  | LogError string string
  | Spawn string "string list"
  | Kill nat signal
  | Exit nat

definition NUM_WORKERS :: nat where
  "NUM_WORKERS = 3"

definition workerId :: "nat \<Rightarrow> string" where
  "workerId i = ''worker-'' @ string_of_nat (i + 1)"

text \<open>
  The \<^verbatim>\<open>for\<close> loop from index \<open>i\<close> on: each pass logs, spawns
  \<^verbatim>\<open>node worker.js <workerId>\<close> and pushes the child on \<^verbatim>\<open>workers\<close>. A child is
  named by its index in \<^verbatim>\<open>workers\<close>.
\<close>

function spawn_from :: "nat \<Rightarrow> nat list \<Rightarrow> leffect list \<times> nat list" where
  "spawn_from i workers =
     (if i < NUM_WORKERS
      then (case spawn_from (Suc i) (workers @ [i]) of
              (es, ws) \<Rightarrow>
                (Log (''Starting '' @ workerId i @ ''...'') #
                 Spawn ''node'' [''worker.js'', workerId i] # es, ws))
      else ([], workers))"
  by pat_completeness auto
termination
  by (relation "measure (\<lambda>(i, workers). NUM_WORKERS - i)") auto

definition launch_team :: "leffect list \<times> nat list" where
  "launch_team =
     (case spawn_from 0 [] of
        (es, ws) \<Rightarrow>
          (Log (''Launching '' @ string_of_nat NUM_WORKERS @ '' crawler workers...'') # es @
           [Log ''Crawler team launched. Press Ctrl+C to stop all workers.''], ws))"

text \<open>\<^verbatim>\<open>${code}\<close>: the exit code, or \<^verbatim>\<open>null\<close> when the child was ended by a signal.\<close>

definition show_code :: "nat option \<Rightarrow> string" where
  "show_code code = (case code of None \<Rightarrow> ''null'' | Some n \<Rightarrow> string_of_nat n)"

definition on_close :: "nat \<Rightarrow> nat option \<Rightarrow> leffect list" where
  "on_close i code = [Log (workerId i @ '' exited with code '' @ show_code code)]"

definition on_error :: "nat \<Rightarrow> string \<Rightarrow> leffect list" where
  "on_error i err = [LogError (workerId i @ '' error:'') err]"

definition on_SIGINT :: "nat list \<Rightarrow> leffect list" where
  "on_SIGINT workers =
     Log (CHR 0x0A # ''Shutting down crawler team...'') #
     map (\<lambda>worker. Kill worker SIGINT) workers @ [Exit 0]"

definition on_SIGTERM :: "nat list \<Rightarrow> leffect list" where
  "on_SIGTERM workers =
     Log (CHR 0x0A # ''Shutting down crawler team...'') #
     map (\<lambda>worker. Kill worker SIGTERM) workers @ [Exit 0]"

text \<open>
  What the launcher is told after the team is launched: a child closed (with its exit
  code), a child could not be spawned or signalled, or the launcher itself received
  SIGINT or SIGTERM. After \<^verbatim>\<open>process.exit\<close> no further event is handled.
\<close>

datatype levent =
    WorkerClose nat "nat option"
  | WorkerError nat string
  | GotSIGINT
  | GotSIGTERM

fun event_loop :: "nat list \<Rightarrow> levent list \<Rightarrow> leffect list" where
  "event_loop workers [] = []"
| "event_loop workers (WorkerClose i code # evs) = on_close i code @ event_loop workers evs"
| "event_loop workers (WorkerError i err # evs) = on_error i err @ event_loop workers evs"
| "event_loop workers (GotSIGINT # evs) = on_SIGINT workers"
| "event_loop workers (GotSIGTERM # evs) = on_SIGTERM workers"

definition launcher :: "levent list \<Rightarrow> leffect list" where
  "launcher evs = (case launch_team of (es, workers) \<Rightarrow> es @ event_loop workers evs)"

text \<open>Projections of the launcher's trace.\<close>

fun spawns :: "leffect list \<Rightarrow> string list list" where
  "spawns [] = []"
| "spawns (Spawn c args # es) = args # spawns es"
| "spawns (e # es) = spawns es"

fun kills :: "leffect list \<Rightarrow> (nat \<times> signal) list" where
  "kills [] = []"
| "kills (Kill w s # es) = (w, s) # kills es"
| "kills (e # es) = kills es"

fun exits :: "leffect list \<Rightarrow> nat list" where
  "exits [] = []"
| "exits (Exit c # es) = c # exits es"
| "exits (e # es) = exits es"

subsection \<open>The restart delay of the spec\<close>

text \<open>
  Modelled from the spec: the restart delay of the Process Supervisor, which is not among
  the sources (\<open>backoff = min(base * 2^failureCount, cap)\<close>).
\<close>

definition backoff :: "nat \<Rightarrow> nat \<Rightarrow> nat \<Rightarrow> nat" where
  "backoff base cap failureCount = min (base * 2 ^ failureCount) cap"

section \<open>The job queue and the dispatch server\<close>

text \<open>
  Modelled from the spec: a Job of the Job Queue (section 3): identifier, target URL,
  enqueue timestamp. The queue and the dispatch server are not among the sources.
\<close>

record job =
  job_id :: string
  job_url :: string
  enqueued_at :: nat

text \<open>
  Modelled from the spec: the lease window and the maximum requeue count of the Job
  Queue (section 4.1).
\<close>

record policy =
  lease_window :: nat
  max_requeue :: nat

text \<open>
  Modelled from the spec: the state of the Job Queue (section 4.1): the unleased pool in
  insertion order (each job with its requeue counter), the leased jobs (with requeue
  counter and lease expiry), the completed identifiers and the dead-letter set.
\<close>

record job_queue =
  unleased :: "(job \<times> nat) list"
  leased :: "(job \<times> nat \<times> nat) list"
  completed :: "string list"
  dead_letter :: "job list"

text \<open>
  Modelled from the spec: the errors of the Job Queue operations.
\<close>

datatype queue_error = DuplicateJobError | NotLeased

text \<open>
  Modelled from the spec: the queue before any job is enqueued.
\<close>

definition empty_queue :: job_queue where
  "empty_queue = \<lparr>unleased = [], leased = [], completed = [], dead_letter = []\<rparr>"

text \<open>
  Modelled from the spec: the identifiers in the unleased pool.
\<close>

definition unleased_ids :: "job_queue \<Rightarrow> string list" where
  "unleased_ids q = map (\<lambda>e. job_id (fst e)) (unleased q)"

text \<open>
  Modelled from the spec: the identifiers of the outstanding leases, one per lease.
\<close>

definition leased_ids :: "job_queue \<Rightarrow> string list" where
  "leased_ids q = map (\<lambda>e. job_id (fst e)) (leased q)"

text \<open>
  Modelled from the spec: \<open>enqueue(job)\<close> fails with
  \<open>DuplicateJobError\<close> if the identifier already exists in the queue or in
  the completed set.
\<close>

definition enqueue :: "job \<Rightarrow> job_queue \<Rightarrow> queue_error + job_queue" where
  "enqueue j q =
     (if job_id j \<in> set (unleased_ids q) \<union> set (leased_ids q) \<union> set (completed q)
      then Inl DuplicateJobError
      else Inr (q\<lparr>unleased := unleased q @ [(j, 0)]\<rparr>))"

text \<open>
  Modelled from the spec: \<open>lease(count)\<close> returns up to \<open>count\<close>
  not-currently-leased jobs in insertion order and marks them leased with a lease-expiry
  timestamp.
\<close>

definition lease :: "policy \<Rightarrow> nat \<Rightarrow> nat \<Rightarrow> job_queue \<Rightarrow> job list \<times> job_queue" where
  "lease p now count q =
     (let taken = take count (unleased q)
      in (map fst taken,
          q\<lparr>unleased := drop count (unleased q),
            leased := leased q @ map (\<lambda>(j, r). (j, r, now + lease_window p)) taken\<rparr>))"

text \<open>
  Modelled from the spec: \<open>complete(jobId)\<close> removes a job from the leased
  set permanently.
\<close>

definition complete :: "string \<Rightarrow> job_queue \<Rightarrow> queue_error + job_queue" where
  "complete jid q =
     (if jid \<in> set (leased_ids q)
      then Inr (q\<lparr>leased := filter (\<lambda>e. job_id (fst e) \<noteq> jid) (leased q),
                  completed := completed q @ [jid]\<rparr>)
      else Inl NotLeased)"

text \<open>
  Modelled from the spec: a lease has expired once its expiry timestamp is reached.
\<close>

definition expired :: "nat \<Rightarrow> job \<times> nat \<times> nat \<Rightarrow> bool" where
  "expired now e = (snd (snd e) \<le> now)"

text \<open>
  Modelled from the spec: \<open>reclaim()\<close> returns the leased jobs whose lease
  has expired to the unleased pool, incrementing their requeue counter; jobs exceeding
  the maximum requeue count go to the dead-letter set.
\<close>

definition reclaim :: "policy \<Rightarrow> nat \<Rightarrow> job_queue \<Rightarrow> job_queue" where
  "reclaim p now q =
     (let late = filter (expired now) (leased q);
          again = filter (\<lambda>e. Suc (fst (snd e)) \<le> max_requeue p) late;
          dead = filter (\<lambda>e. \<not> Suc (fst (snd e)) \<le> max_requeue p) late
      in q\<lparr>unleased := unleased q @ map (\<lambda>e. (fst e, Suc (fst (snd e)))) again,
           leased := filter (\<lambda>e. \<not> expired now e) (leased q),
           dead_letter := dead_letter q @ map fst dead\<rparr>)"

text \<open>
  Modelled from the spec: the calls made on the Job Queue, which the spec serialises
  (section 5).
\<close>

datatype queue_op =
    Enqueue job
  | Lease nat nat
  | Complete string
  | Reclaim nat

text \<open>
  Modelled from the spec: one call on the queue: the jobs it hands out and the queue
  afterwards; a failed \<open>enqueue\<close> or \<open>complete\<close> leaves the
  queue as it was.
\<close>

fun apply_op :: "policy \<Rightarrow> queue_op \<Rightarrow> job_queue \<Rightarrow> job list \<times> job_queue" where
  "apply_op p (Enqueue j) q = ([], case enqueue j q of Inl e \<Rightarrow> q | Inr q' \<Rightarrow> q')"
| "apply_op p (Lease now count) q = lease p now count q"
| "apply_op p (Complete jid) q = ([], case complete jid q of Inl e \<Rightarrow> q | Inr q' \<Rightarrow> q')"
| "apply_op p (Reclaim now) q = ([], reclaim p now q)"

text \<open>
  Modelled from the spec: a sequence of calls: all the jobs handed out, in order, and
  the final queue.
\<close>

fun run_ops :: "policy \<Rightarrow> queue_op list \<Rightarrow> job_queue \<Rightarrow> job list \<times> job_queue" where
  "run_ops p [] q = ([], q)"
| "run_ops p (x # xs) q =
     (case apply_op p x q of
        (h, q') \<Rightarrow> (case run_ops p xs q' of (hs, q'') \<Rightarrow> (h @ hs, q'')))"

text \<open>
  Modelled from the spec: whether a call is \<open>reclaim\<close>.
\<close>

fun is_reclaim :: "queue_op \<Rightarrow> bool" where
  "is_reclaim (Reclaim now) = True"
| "is_reclaim x = False"

text \<open>
  Modelled from the spec: every job identifier occurs once across the unleased pool, the
  leases and the completed set.
\<close>

definition wf_queue :: "job_queue \<Rightarrow> bool" where
  "wf_queue q = distinct (unleased_ids q @ leased_ids q @ completed q)"

text \<open>
  Modelled from the spec: the status of a Result (section 3).
\<close>

datatype result_status = Success | Failure

text \<open>
  Modelled from the spec: a submitted Result (section 3): job identifier (absent in a
  malformed body), producing worker, payload, status, timestamp.
\<close>

record result =
  result_job :: "string option"
  result_worker :: string
  result_payload :: string
  result_status :: result_status
  result_time :: nat

text \<open>
  Modelled from the spec: the state of the Dispatch Server (section 4.4): the Job Queue,
  the Result Sink and the Manifest, which maps job identifiers to positions in the sink.
\<close>

record server =
  queue :: job_queue
  sink :: "result list"
  manifest :: "(string \<times> nat) list"

text \<open>
  Modelled from the spec: the errors of \<open>submitResult\<close> (section 7).
\<close>

datatype rejection = ValidationError | DuplicateError | UnknownJob

text \<open>
  Modelled from the spec: 400 on a malformed body, 409 on a duplicate or unknown job
  (section 6).
\<close>

definition http_status :: "rejection \<Rightarrow> nat" where
  "http_status e = (case e of ValidationError \<Rightarrow> 400 | DuplicateError \<Rightarrow> 409 | UnknownJob \<Rightarrow> 409)"

text \<open>
  Modelled from the spec: the server at startup.
\<close>

definition init_server :: server where
  "init_server = \<lparr>queue = empty_queue, sink = [], manifest = []\<rparr>"

text \<open>
  Modelled from the spec: \<open>pullJobs(max)\<close> delegates to \<open>lease\<close>.
\<close>

definition pullJobs :: "policy \<Rightarrow> nat \<Rightarrow> nat \<Rightarrow> server \<Rightarrow> job list \<times> server" where
  "pullJobs p now count s = (case lease p now count (queue s) of (js, q') \<Rightarrow> (js, s\<lparr>queue := q'\<rparr>))"

text \<open>
  Modelled from the spec: \<open>submitResult\<close> rejects a body without identifier,
  rejects an identifier already in the Manifest, checks that the job is currently
  leased, then completes it, appends the Result to the sink and adds the Manifest entry.
\<close>

definition submitResult :: "result \<Rightarrow> server \<Rightarrow> rejection + server" where
  "submitResult r s =
     (case result_job r of
        None \<Rightarrow> Inl ValidationError
      | Some jid \<Rightarrow>
          if jid \<in> set (map fst (manifest s)) then Inl DuplicateError
          else (case complete jid (queue s) of
                  Inl e \<Rightarrow> Inl UnknownJob
                | Inr q' \<Rightarrow>
                    Inr (s\<lparr>queue := q',
                           sink := sink s @ [r],
                           manifest := manifest s @ [(jid, length (sink s))]\<rparr>)))"

text \<open>
  Modelled from the spec: \<open>POST /results\<close>: the HTTP status answered and the
  state afterwards; a rejected submission leaves the state as it was.
\<close>

definition post_results :: "result \<Rightarrow> server \<Rightarrow> nat \<times> server" where
  "post_results r s =
     (case submitResult r s of Inl e \<Rightarrow> (http_status e, s) | Inr s' \<Rightarrow> (200, s'))"

text \<open>
  Modelled from the spec: the requests the server handles, with the Control Loop's tick.
\<close>

datatype request =
    AddJob job
  | GetJobs nat nat
  | PostResults result
  | Tick nat

text \<open>
  Modelled from the spec: the state after one request.
\<close>

fun serve :: "policy \<Rightarrow> request \<Rightarrow> server \<Rightarrow> server" where
  "serve p (AddJob j) s =
     (case enqueue j (queue s) of Inl e \<Rightarrow> s | Inr q' \<Rightarrow> s\<lparr>queue := q'\<rparr>)"
| "serve p (GetJobs now count) s = snd (pullJobs p now count s)"
| "serve p (PostResults r) s = snd (post_results r s)"
| "serve p (Tick now) s = s\<lparr>queue := reclaim p now (queue s)\<rparr>"

text \<open>
  Modelled from the spec: the state after a sequence of requests.
\<close>

fun serve_all :: "policy \<Rightarrow> request list \<Rightarrow> server \<Rightarrow> server" where
  "serve_all p [] s = s"
| "serve_all p (x # xs) s = serve_all p xs (serve p x s)"

text \<open>
  Modelled from the spec: the Manifest lists exactly the completed identifiers, in
  order, and its entries point at the results in the sink, in order.
\<close>

definition manifest_ok :: "server \<Rightarrow> bool" where
  "manifest_ok s =
     (wf_queue (queue s) \<and> map fst (manifest s) = completed (queue s) \<and>
      map snd (manifest s) = [0..<length (sink s)])"

text \<open>
  Modelled from the spec: the scenario of section 8: jobs \<open>a\<close> and
  \<open>b\<close>.
\<close>

definition qjob_a :: job where
  "qjob_a = \<lparr>job_id = ''a'', job_url = ''http://x'', enqueued_at = 0\<rparr>"

definition qjob_b :: job where
  "qjob_b = \<lparr>job_id = ''b'', job_url = ''http://y'', enqueued_at = 1\<rparr>"

text \<open>
  Modelled from the spec: a lease window of 30 and at most 3 requeues.
\<close>

definition policy0 :: policy where
  "policy0 = \<lparr>lease_window = 30, max_requeue = 3\<rparr>"

text \<open>
  Modelled from the spec: a result for job \<open>a\<close>.
\<close>

definition result_a :: result where
  "result_a = \<lparr>result_job = Some ''a'', result_worker = ''worker-1'', result_payload = ''<p>'',
               result_status = Success, result_time = 7\<rparr>"

text \<open>
  Modelled from the spec: both jobs enqueued, each pulled by one
  \<open>pullJobs(1)\<close>, the result for \<open>a\<close> accepted.
\<close>

definition served :: server where
  "served = serve_all policy0 [AddJob qjob_a, AddJob qjob_b, GetJobs 5 1, GetJobs 6 1,
      PostResults result_a] init_server"





section \<open>Properties of the worker loop\<close>

lemmas comp_defs = bind_def try_catch_def emit_def lift_def launch_def goto_content_def
  close_browser_def fetch_jobs_def fetch_results_def

lemmas worker_splits = sum.splits option.splits post_outcome.splits prod.splits
  poll_outcome.splits

lemma posts_append: "posts (xs @ ys) = posts xs @ posts ys"
  by (induction xs rule: posts.induct) simp_all

lemma sleeps_append: "sleeps (xs @ ys) = sleeps xs @ sleeps ys"
  by (induction xs rule: sleeps.induct) simp_all

lemma gotos_append: "gotos (xs @ ys) = gotos xs @ gotos ys"
  by (induction xs rule: gotos.induct) simp_all

lemma polls_append: "polls (xs @ ys) = polls xs + polls ys"
  by (induction xs rule: polls.induct) simp_all

lemma launches_append: "launches (xs @ ys) = launches xs + launches ys"
  by (induction xs rule: launches.induct) simp_all

lemma processJob_throw_no_post:
  "snd (processJob w job) = Inl e \<Longrightarrow> posts (fst (processJob w job)) = []"
  by (auto simp: processJob_def comp_defs split: worker_splits)

lemma processJob_posts:
  "posts (fst (processJob w job)) = [] \<or>
   (\<exists>url html. get_prop job ''url'' = Inr url \<and> page w url = Inr html \<and>
      posts (fst (processJob w job)) = [JSON_stringify (mk_result url html)])"
  by (auto simp: processJob_def comp_defs split: worker_splits)

lemmas worker_defs = loop_body_def poll_and_process_def processJob_def comp_defs Let_def

lemma loop_body_ok: "snd (loop_body w) = Inr ()"
  by (auto simp: loop_body_def comp_defs split: worker_splits)

lemma loop_body_sleeps: "sleeps (fst (loop_body w)) = [1000]"
  by (auto simp: worker_defs split: worker_splits)

lemma loop_body_polls: "polls (fst (loop_body w)) = 1"
  by (auto simp: worker_defs split: worker_splits)

lemma loop_body_launches: "launches (fst (loop_body w)) \<le> 1"
  by (auto simp: worker_defs split: worker_splits)

lemma loop_body_gotos: "length (gotos (fst (loop_body w))) \<le> 1"
  by (auto simp: worker_defs split: worker_splits)

lemma loop_body_posts: "length (posts (fst (loop_body w))) \<le> 1"
  by (auto simp: worker_defs split: worker_splits)

lemma loop_body_last: "last (fst (loop_body w)) = Sleep 1000"
  by (auto simp: loop_body_def comp_defs split: worker_splits)

lemma run_loop_Cons:
  "run_loop (w # ws) = (fst (loop_body w) @ fst (run_loop ws), snd (run_loop ws))"
  using loop_body_ok [of w]
  by (cases "loop_body w"; cases "run_loop ws") (simp add: bind_def)

declare run_loop.simps(2) [simp del]

lemma run_loop_ok: "snd (run_loop ws) = Inr ()"
  by (induction ws) (simp_all add: run_loop_Cons)

lemma run_loop_sleeps: "sleeps (fst (run_loop ws)) = replicate (length ws) 1000"
  by (induction ws) (simp_all add: run_loop_Cons sleeps_append loop_body_sleeps)

lemma run_loop_polls: "polls (fst (run_loop ws)) = length ws"
  by (induction ws) (simp_all add: run_loop_Cons polls_append loop_body_polls)

lemma run_loop_launches: "launches (fst (run_loop ws)) \<le> length ws"
proof (induction ws)
  case Nil
  show ?case by simp
next
  case (Cons w ws)
  then show ?case
    using loop_body_launches [of w] by (simp add: run_loop_Cons launches_append)
qed

lemma run_eq:
  "run ws =
     (ConsoleLog (JStr ''Crawler worker started, polling for jobs...'') # fst (run_loop ws),
      snd (run_loop ws))"
  by (cases "run_loop ws") (simp add: run_def bind_def emit_def)

subsection \<open>One job per cycle, then a fixed sleep\<close>

lemma loop_body_shape:
  "\<exists>es. fst (loop_body w) = HttpGet ''/jobs'' # es @ [Sleep 1000] \<and>
     polls es = 0 \<and> sleeps es = []"
  by (auto simp: worker_defs split: worker_splits)

lemma loop_body_hd: "hd (fst (loop_body w)) = HttpGet ''/jobs''"
  using loop_body_shape [of w] by auto

lemma loop_body_processes_first:
  "poll w = Data d \<Longrightarrow> get_prop d ''jobs'' = Inr (JArr (j # js)) \<Longrightarrow>
   launches (fst (loop_body w)) = 1"
  by (auto simp: worker_defs js_or_def split: worker_splits)

lemma loop_body_idle:
  "poll w = Data d \<Longrightarrow> get_prop d ''jobs'' = Inr (JArr []) \<Longrightarrow>
   fst (loop_body w) = [HttpGet ''/jobs'', Sleep 1000]"
  by (simp add: worker_defs js_or_def)

lemma run_loop_trace: "fst (run_loop ws) = concat (map (\<lambda>w. fst (loop_body w)) ws)"
  by (induction ws) (simp_all add: run_loop_Cons)

text \<open>
  Claim C5. Every iteration of the polling loop starts by polling /jobs, polls exactly
  once, processes at most one job (the browser is launched at most once, at most one
  navigation, at most one POST) whatever the poll returned, and ends with a sleep of
  exactly 1000 ms, its only sleep. A poll that returns a non-empty list of jobs has exactly
  one of them processed; a poll that returns the empty list is followed by the sleep
  alone. The run is the start-up log followed by the iterations one after the other, so
  every poll after the first comes directly after a sleep of 1000 ms, and the first \<open>n\<close>
  iterations poll \<open>n\<close> times, sleep \<open>n\<close> times 1000 ms and process at most \<open>n\<close>
  jobs.
\<close>

theorem C5_one_job_then_fixed_sleep:
  "launches (fst (loop_body w)) \<le> 1 \<and>
   length (gotos (fst (loop_body w))) \<le> 1 \<and>
   length (posts (fst (loop_body w))) \<le> 1 \<and>
   sleeps (fst (loop_body w)) = [1000] \<and>
   last (fst (loop_body w)) = Sleep 1000 \<and>
   snd (loop_body w) = Inr () \<and>
   sleeps (fst (run ws)) = replicate (length ws) 1000 \<and>
   launches (fst (run ws)) \<le> length ws \<and>
   polls (fst (loop_body w)) = 1 \<and>
   hd (fst (loop_body w)) = HttpGet ''/jobs'' \<and>
   (\<exists>es. fst (loop_body w) = HttpGet ''/jobs'' # es @ [Sleep 1000] \<and>
      polls es = 0 \<and> sleeps es = []) \<and>
   polls (fst (run ws)) = length ws \<and>
   fst (run ws) =
     ConsoleLog (JStr ''Crawler worker started, polling for jobs...'') #
     concat (map (\<lambda>w. fst (loop_body w)) ws) \<and>
   (poll w = Data d \<and> get_prop d ''jobs'' = Inr (JArr (j # js)) \<longrightarrow>
      launches (fst (loop_body w)) = 1) \<and>
   (poll w = Data d \<and> get_prop d ''jobs'' = Inr (JArr []) \<longrightarrow>
      fst (loop_body w) = [HttpGet ''/jobs'', Sleep 1000])"
proof -
  have body: "launches (fst (loop_body w)) \<le> 1" "length (gotos (fst (loop_body w))) \<le> 1"
    "length (posts (fst (loop_body w))) \<le> 1" "sleeps (fst (loop_body w)) = [1000]"
    "last (fst (loop_body w)) = Sleep 1000" "snd (loop_body w) = Inr ()"
    "polls (fst (loop_body w)) = 1" "hd (fst (loop_body w)) = HttpGet ''/jobs''"
    by (rule loop_body_launches loop_body_gotos loop_body_posts loop_body_sleeps loop_body_last
        loop_body_ok loop_body_polls loop_body_hd)+
  have loop: "sleeps (fst (run ws)) = replicate (length ws) 1000"
    "launches (fst (run ws)) \<le> length ws" "polls (fst (run ws)) = length ws"
    using run_loop_launches [of ws] by (simp_all add: run_eq run_loop_sleeps run_loop_polls)
  have trace: "fst (run ws) =
     ConsoleLog (JStr ''Crawler worker started, polling for jobs...'') #
     concat (map (\<lambda>w. fst (loop_body w)) ws)"
    by (simp add: run_eq run_loop_trace)
  from body loop trace loop_body_shape [of w] loop_body_processes_first [of w d j js]
    loop_body_idle [of w d]
  show ?thesis
    by blast
qed

theorem C5_one_job_then_fixed_sleep_witness:
  "poll w0 = Data (JObj [(''jobs'', JArr [job_a, job_b])]) \<and>
   get_prop (JObj [(''jobs'', JArr [job_a, job_b])]) ''jobs'' = Inr (JArr (job_a # [job_b])) \<and>
   launches (fst (loop_body w0)) = 1 \<and>
   polls (fst (loop_body w0)) = 1 \<and>
   sleeps (fst (loop_body w0)) = [1000] \<and>
   gotos (fst (loop_body w0)) = [JStr ''http://x''] \<and>
   poll w_no_jobs = Data (JObj [(''jobs'', JArr [])]) \<and>
   get_prop (JObj [(''jobs'', JArr [])]) ''jobs'' = Inr (JArr []) \<and>
   fst (loop_body w_no_jobs) = [HttpGet ''/jobs'', Sleep 1000] \<and>
   fst (run [w0, w_no_jobs]) =
     [ConsoleLog (JStr ''Crawler worker started, polling for jobs...''),
      HttpGet ''/jobs'', LaunchBrowser, Goto (JStr ''http://x''), CloseBrowser,
      HttpPost ''/results'' (JSON_stringify (mk_result (JStr ''http://x'') ''<p>'')),
      ConsoleLog (JSON_stringify (mk_result (JStr ''http://x'') ''<p>'')),
      Sleep 1000,
      HttpGet ''/jobs'', Sleep 1000]"
proof -
  have p: "poll w0 = Data (JObj [(''jobs'', JArr [job_a, job_b])])"
    "get_prop (JObj [(''jobs'', JArr [job_a, job_b])]) ''jobs'' = Inr (JArr (job_a # [job_b]))"
    "poll w_no_jobs = Data (JObj [(''jobs'', JArr [])])"
    "get_prop (JObj [(''jobs'', JArr [])]) ''jobs'' = Inr (JArr [])"
    by (simp_all add: w0_def w_no_jobs_def)
  have t: "fst (loop_body w0) =
     [HttpGet ''/jobs'', LaunchBrowser, Goto (JStr ''http://x''), CloseBrowser,
      HttpPost ''/results'' (JSON_stringify (mk_result (JStr ''http://x'') ''<p>'')),
      ConsoleLog (JSON_stringify (mk_result (JStr ''http://x'') ''<p>'')),
      Sleep 1000]"
    by (simp add: worker_defs w0_def job_a_def job_b_def js_or_def)
  note a = C5_one_job_then_fixed_sleep [of w0 "[w0, w_no_jobs]"
      "JObj [(''jobs'', JArr [job_a, job_b])]" job_a "[job_b]"]
  note b = C5_one_job_then_fixed_sleep [of w_no_jobs "[w0, w_no_jobs]"
      "JObj [(''jobs'', JArr [])]"]
  from a p have 1: "launches (fst (loop_body w0)) = 1" "polls (fst (loop_body w0)) = 1"
    "sleeps (fst (loop_body w0)) = [1000]"
    by blast+
  from b p have 2: "fst (loop_body w_no_jobs) = [HttpGet ''/jobs'', Sleep 1000]"
    by blast
  from a have "fst (run [w0, w_no_jobs]) =
     ConsoleLog (JStr ''Crawler worker started, polling for jobs...'') #
     concat (map (\<lambda>w. fst (loop_body w)) [w0, w_no_jobs])"
    by blast
  with t 2 have 3: "fst (run [w0, w_no_jobs]) =
     [ConsoleLog (JStr ''Crawler worker started, polling for jobs...''),
      HttpGet ''/jobs'', LaunchBrowser, Goto (JStr ''http://x''), CloseBrowser,
      HttpPost ''/results'' (JSON_stringify (mk_result (JStr ''http://x'') ''<p>'')),
      ConsoleLog (JSON_stringify (mk_result (JStr ''http://x'') ''<p>'')),
      Sleep 1000,
      HttpGet ''/jobs'', Sleep 1000]"
    by simp
  have 4: "gotos (fst (loop_body w0)) = [JStr ''http://x'']"
    by (simp add: t)
  from p 1 2 3 4 show ?thesis
    by blast
qed

subsection \<open>Only successful results are submitted\<close>

lemmas world_defs = w0_def job_a_def job_b_def w_nav_fail_def w_post_fail_def w_net_down_def
  w_no_jobs_def

lemma status_of_result:
  "get_prop (JSON_stringify (mk_result url html)) ''status'' = Inr (JStr ''success'')"
  by (simp add: mk_result_def)

lemma loop_body_posts_status:
  "b \<in> set (posts (fst (loop_body w))) \<Longrightarrow> get_prop b ''status'' = Inr (JStr ''success'')"
  by (auto simp: worker_defs status_of_result split: worker_splits if_splits)

lemma run_loop_posts_status:
  "b \<in> set (posts (fst (run_loop ws))) \<Longrightarrow> get_prop b ''status'' = Inr (JStr ''success'')"
  by (induction ws) (auto simp: run_loop_Cons posts_append loop_body_posts_status)

lemma loop_body_throw_no_post:
  "snd (poll_and_process w) = Inl e \<Longrightarrow> posts (fst (loop_body w)) = []"
  by (auto simp: worker_defs split: worker_splits if_splits)

text \<open>
  Claim C8. Every result the worker posts carries status \<open>success\<close>; when processing a
  job throws (the browser does not launch, the job has no readable \<open>url\<close>, navigation
  or closing fails), nothing is posted for it, neither by \<open>processJob\<close> nor by the rest of
  the iteration.
\<close>

theorem C8_only_success_results:
  "(\<forall>b \<in> set (posts (fst (run ws))). get_prop b ''status'' = Inr (JStr ''success'')) \<and>
   (snd (processJob w job) = Inl e \<longrightarrow> posts (fst (processJob w job)) = []) \<and>
   (snd (poll_and_process w) = Inl e \<longrightarrow> posts (fst (loop_body w)) = [])"
  by (auto simp: run_eq run_loop_posts_status processJob_throw_no_post loop_body_throw_no_post)

theorem C8_only_success_results_witness:
  "posts (fst (run [w0])) = [JSON_stringify (mk_result (JStr ''http://x'') ''<p>'')] \<and>
   get_prop (JSON_stringify (mk_result (JStr ''http://x'') ''<p>'')) ''status'' =
     Inr (JStr ''success'') \<and>
   snd (processJob w_nav_fail job_a) = Inl (Thrown ''net::ERR_NAME_NOT_RESOLVED'') \<and>
   posts (fst (processJob w_nav_fail job_a)) = [] \<and>
   snd (poll_and_process w_nav_fail) = Inl (Thrown ''net::ERR_NAME_NOT_RESOLVED'') \<and>
   posts (fst (loop_body w_nav_fail)) = []"
proof -
  have p: "snd (processJob w_nav_fail job_a) = Inl (Thrown ''net::ERR_NAME_NOT_RESOLVED'')"
    by (simp add: worker_defs world_defs)
  have q: "snd (poll_and_process w_nav_fail) = Inl (Thrown ''net::ERR_NAME_NOT_RESOLVED'')"
    by (simp add: worker_defs world_defs js_or_def)
  have r: "posts (fst (run [w0])) = [JSON_stringify (mk_result (JStr ''http://x'') ''<p>'')]"
    by (simp add: run_eq run_loop_Cons worker_defs world_defs js_or_def)
  note t = C8_only_success_results [of "[w0]" w_nav_fail job_a
      "Thrown ''net::ERR_NAME_NOT_RESOLVED''"]
  from t r have "get_prop (JSON_stringify (mk_result (JStr ''http://x'') ''<p>'')) ''status'' =
     Inr (JStr ''success'')"
    by simp
  with t p q r show ?thesis
    by blast
qed

subsection \<open>The first job of a poll\<close>





subsection \<open>The response to a posted result is not inspected\<close>

lemma post_respond:
  "try_catch (bind (fetch_results (respond s w) body) (\<lambda>_. lift (Inr ()))) h =
     ([HttpPost ''/results'' body], Inr ())"
  by (simp add: comp_defs respond_def)

lemma respond_elsewhere:
  "launch (respond s w) = launch w"
  "goto_content (respond s w) = goto_content w"
  "close_browser (respond s w) = close_browser w"
  "fetch_jobs (respond s w) = fetch_jobs w"
  "coerce_gt0 (respond s w) = coerce_gt0 w"
  by (simp_all add: launch_def goto_content_def close_browser_def fetch_jobs_def respond_def
      fun_eq_iff)

lemma processJob_respond: "processJob (respond s w) = processJob (respond t w)"
  by (rule ext) (simp add: processJob_def post_respond respond_elsewhere)

lemma loop_body_respond: "loop_body (respond s w) = loop_body (respond t w)"
proof -
  have "poll_and_process (respond s w) = poll_and_process (respond t w)"
    unfolding poll_and_process_def respond_elsewhere processJob_respond [of s w t] ..
  then show ?thesis
    unfolding loop_body_def by (rule arg_cong)
qed

lemma run_loop_respond:
  "length ss = length ws \<Longrightarrow> length ts = length ws \<Longrightarrow>
   run_loop (map2 respond ss ws) = run_loop (map2 respond ts ws)"
proof (induction ws arbitrary: ss ts)
  case Nil
  then show ?case by simp
next
  case (Cons w ws)
  from Cons.prems obtain s ss' t ts' where st: "ss = s # ss'" "ts = t # ts'"
    by (cases ss; cases ts) auto
  with Cons.prems have "run_loop (map2 respond ss' ws) = run_loop (map2 respond ts' ws)"
    by (intro Cons.IH) simp_all
  then show ?case
    unfolding st by (simp add: run_loop_Cons loop_body_respond [of s w t])
qed

text \<open>
  Claim C10. The HTTP status with which the orchestrator answers POST /results has no
  influence on the worker: an iteration is the same under any two statuses, and so is any
  run of the loop under any two sequences of statuses.
\<close>

theorem C10_response_never_inspected:
  "loop_body (respond s w) = loop_body (respond t w) \<and>
   (length ss = length ws \<and> length ts = length ws \<longrightarrow>
      run (map2 respond ss ws) = run (map2 respond ts ws))"
proof -
  have "run (map2 respond ss ws) = run (map2 respond ts ws)"
    if "length ss = length ws" "length ts = length ws"
    unfolding run_def using run_loop_respond [OF that] by (rule arg_cong)
  then show ?thesis
    using loop_body_respond [of s w t] by blast
qed


theorem C10_response_never_inspected_witness:
  "post (respond 200 w0) \<noteq> post (respond 409 w0) \<and>
   loop_body (respond 200 w0) = loop_body (respond 409 w0) \<and>
   length [200, 409 :: nat] = length [w0, w0] \<and> length [400, 200 :: nat] = length [w0, w0] \<and>
   run (map2 respond [200, 409] [w0, w0]) = run (map2 respond [400, 200] [w0, w0])"
proof -
  have d: "post (respond 200 w0) \<noteq> post (respond 409 w0)"
    by (simp add: respond_def)
  have l: "length [200, 409 :: nat] = length [w0, w0] \<and> length [400, 200 :: nat] = length [w0, w0]"
    by simp
  from C10_response_never_inspected [of 200 w0 409 "[200, 409]" "[w0, w0]" "[400, 200]"] d l
  show ?thesis by blast
qed

subsection \<open>Network failures\<close>

lemma loop_body_fetch_rejects:
  "poll w = FetchRejects e \<Longrightarrow>
   loop_body w = ([HttpGet ''/jobs'', ConsoleError ''Error polling jobs:'' e, Sleep 1000], Inr ())"
  by (simp add: loop_body_def poll_and_process_def comp_defs)

lemma processJob_post_rejects:
  "post w = PostRejects e \<Longrightarrow> launch_fails w = None \<Longrightarrow> get_prop job ''url'' = Inr url \<Longrightarrow>
   page w url = Inr html \<Longrightarrow> close_fails w = None \<Longrightarrow>
   processJob w job =
     ([LaunchBrowser, Goto url, CloseBrowser,
       HttpPost ''/results'' (JSON_stringify (mk_result url html)),
       ConsoleError ''Failed to post result:'' e,
       ConsoleLog (JSON_stringify (mk_result url html))], Inr ())"
  by (simp add: processJob_def comp_defs)

text \<open>
  Claim C4, as stated, fails on its second half: the worker computes no backoff and
  retries nothing. A POST that the network rejects is logged and never sent again (two
  further cycles pass without any POST), and after three polls rejected in a row the three
  delays are 1000, 1000, 1000 ms.
\<close>

theorem C4_no_retry_no_backoff_counterexample:
  "post w_post_fail = PostRejects (Thrown ''fetch failed'') \<and>
   posts (fst (run [w_post_fail, w_no_jobs, w_no_jobs])) =
     [JSON_stringify (mk_result (JStr ''http://x'') ''<p>'')] \<and>
   sleeps (fst (run [w_post_fail, w_no_jobs, w_no_jobs])) = [1000, 1000, 1000] \<and>
   poll w_net_down = FetchRejects (Thrown ''fetch failed'') \<and>
   sleeps (fst (run [w_net_down, w_net_down, w_net_down])) = [1000, 1000, 1000]"
  by (simp add: run_eq run_loop_Cons worker_defs world_defs js_or_def)

text \<open>
  Claim C4, amended. A network failure while fetching /jobs or while posting to /results
  is never fatal: it is caught and logged, no iteration throws, and the loop goes on to
  the next cycle after the same fixed 1000 ms sleep as any other cycle. Each cycle polls
  exactly once and posts at most once: a failed poll is followed only by the next cycle's
  poll, and a failed post is not sent again.
\<close>

theorem C4_failures_caught_fixed_delay:
  "snd (run ws) = Inr () \<and>
   sleeps (fst (run ws)) = replicate (length ws) 1000 \<and>
   polls (fst (run ws)) = length ws \<and>
   length (posts (fst (loop_body w))) \<le> 1 \<and>
   (poll w = FetchRejects e \<longrightarrow>
      loop_body w =
        ([HttpGet ''/jobs'', ConsoleError ''Error polling jobs:'' e, Sleep 1000], Inr ())) \<and>
   (post w = PostRejects e \<and> launch_fails w = None \<and> get_prop job ''url'' = Inr url \<and>
    page w url = Inr html \<and> close_fails w = None \<longrightarrow>
      processJob w job =
        ([LaunchBrowser, Goto url, CloseBrowser,
          HttpPost ''/results'' (JSON_stringify (mk_result url html)),
          ConsoleError ''Failed to post result:'' e,
          ConsoleLog (JSON_stringify (mk_result url html))], Inr ()))"
  using loop_body_posts [of w]
  by (simp add: run_eq run_loop_ok run_loop_sleeps run_loop_polls loop_body_fetch_rejects
      processJob_post_rejects)

theorem C4_failures_caught_fixed_delay_witness:
  "poll w_net_down = FetchRejects (Thrown ''fetch failed'') \<and>
   loop_body w_net_down =
     ([HttpGet ''/jobs'', ConsoleError ''Error polling jobs:'' (Thrown ''fetch failed''),
       Sleep 1000], Inr ()) \<and>
   post w_post_fail = PostRejects (Thrown ''fetch failed'') \<and>
   launch_fails w_post_fail = None \<and> get_prop job_a ''url'' = Inr (JStr ''http://x'') \<and>
   page w_post_fail (JStr ''http://x'') = Inr ''<p>'' \<and> close_fails w_post_fail = None \<and>
   processJob w_post_fail job_a =
     ([LaunchBrowser, Goto (JStr ''http://x''), CloseBrowser,
       HttpPost ''/results'' (JSON_stringify (mk_result (JStr ''http://x'') ''<p>'')),
       ConsoleError ''Failed to post result:'' (Thrown ''fetch failed''),
       ConsoleLog (JSON_stringify (mk_result (JStr ''http://x'') ''<p>''))], Inr ()) \<and>
   snd (run [w_net_down, w_post_fail]) = Inr () \<and>
   sleeps (fst (run [w_net_down, w_post_fail])) = [1000, 1000]"
proof -
  have h: "poll w_net_down = FetchRejects (Thrown ''fetch failed'')"
    "post w_post_fail = PostRejects (Thrown ''fetch failed'')"
    "launch_fails w_post_fail = None" "get_prop job_a ''url'' = Inr (JStr ''http://x'')"
    "page w_post_fail (JStr ''http://x'') = Inr ''<p>''" "close_fails w_post_fail = None"
    by (simp_all add: world_defs)
  have n: "replicate (length [w_net_down, w_post_fail]) (1000::nat) = [1000, 1000]"
    by simp
  from C4_failures_caught_fixed_delay [of "[w_net_down, w_post_fail]" w_net_down
      "Thrown ''fetch failed''"]
    C4_failures_caught_fixed_delay [of "[w_net_down, w_post_fail]" w_post_fail
      "Thrown ''fetch failed''" job_a "JStr ''http://x''" "''<p>''"] h n
  show ?thesis by simp
qed

subsection \<open>The shape of a submitted result\<close>

lemma result_props:
  "get_prop (JSON_stringify (mk_result url html)) ''id'' = Inr JUndefined"
  "get_prop (JSON_stringify (mk_result url html)) ''payload'' = Inr JUndefined"
  "get_prop (JSON_stringify (mk_result url html)) ''url'' = Inr url"
  "get_prop (JSON_stringify (mk_result url html)) ''bytes'' = Inr (JNum (int (length html)))"
  "get_prop (JSON_stringify (mk_result url html)) ''html'' = Inr (JStr html)"
  by (simp_all add: mk_result_def)

lemma loop_body_posts_shape:
  "b \<in> set (posts (fst (loop_body w))) \<Longrightarrow> \<exists>url html. b = JSON_stringify (mk_result url html)"
  by (auto simp: worker_defs split: worker_splits if_splits) blast+

lemma run_loop_posts_shape:
  "b \<in> set (posts (fst (run_loop ws))) \<Longrightarrow> \<exists>url html. b = JSON_stringify (mk_result url html)"
  by (induction ws) (auto simp: run_loop_Cons posts_append dest: loop_body_posts_shape)

text \<open>
  Claim C1, as stated, fails: for the job \<open>{id: a, url: http://x}\<close> the body posted to
  /results has the properties \<open>url\<close>, \<open>bytes\<close>, \<open>status\<close> and \<open>html\<close> only, so neither
  the job identifier nor a worker identity nor a \<open>payload\<close> property.
\<close>

theorem C1_result_without_id_counterexample:
  "get_prop job_a ''id'' = Inr (JStr ''a'') \<and>
   posts (fst (loop_body w0)) =
     [JObj [(''url'', JStr ''http://x''), (''bytes'', JNum 3),
            (''status'', JStr ''success''), (''html'', JStr ''<p>'')]]"
  by (simp add: worker_defs world_defs js_or_def mk_result_def)

text \<open>
  Claim C1, amended. Every result the worker posts to /results is the object
  \<open>{url, bytes, status, html}\<close>: \<open>url\<close> is the job's \<open>url\<close>, \<open>html\<close> the content of the
  page, \<open>bytes\<close> its length and \<open>status\<close> is \<open>success\<close>; it has no \<open>id\<close> and no
  \<open>payload\<close> property, and nothing in it identifies the worker.
\<close>

theorem C1_result_shape:
  "(\<forall>b \<in> set (posts (fst (run ws))).
      \<exists>url html. b = JSON_stringify (mk_result url html) \<and>
        get_prop b ''url'' = Inr url \<and>
        get_prop b ''bytes'' = Inr (JNum (int (length html))) \<and>
        get_prop b ''status'' = Inr (JStr ''success'') \<and>
        get_prop b ''html'' = Inr (JStr html) \<and>
        get_prop b ''id'' = Inr JUndefined \<and>
        get_prop b ''payload'' = Inr JUndefined) \<and>
   (posts (fst (processJob w job)) = [] \<or>
    (\<exists>url html. get_prop job ''url'' = Inr url \<and> page w url = Inr html \<and>
       posts (fst (processJob w job)) = [JSON_stringify (mk_result url html)]))"
proof -
  have "\<exists>url html. b = JSON_stringify (mk_result url html) \<and>
        get_prop b ''url'' = Inr url \<and>
        get_prop b ''bytes'' = Inr (JNum (int (length html))) \<and>
        get_prop b ''status'' = Inr (JStr ''success'') \<and>
        get_prop b ''html'' = Inr (JStr html) \<and>
        get_prop b ''id'' = Inr JUndefined \<and>
        get_prop b ''payload'' = Inr JUndefined"
    if "b \<in> set (posts (fst (run ws)))" for b
  proof -
    from that have "b \<in> set (posts (fst (run_loop ws)))"
      by (simp add: run_eq)
    then obtain url html where "b = JSON_stringify (mk_result url html)"
      using run_loop_posts_shape by blast
    then show ?thesis
      using result_props [of url html] status_of_result [of url html] by blast
  qed
  then show ?thesis
    using processJob_posts [of w job] by blast
qed

theorem C1_result_shape_witness:
  "posts (fst (run [w0])) = [JSON_stringify (mk_result (JStr ''http://x'') ''<p>'')] \<and>
   get_prop (JSON_stringify (mk_result (JStr ''http://x'') ''<p>'')) ''id'' = Inr JUndefined \<and>
   get_prop (JSON_stringify (mk_result (JStr ''http://x'') ''<p>'')) ''payload'' =
     Inr JUndefined \<and>
   get_prop (JSON_stringify (mk_result (JStr ''http://x'') ''<p>'')) ''status'' =
     Inr (JStr ''success'')"
proof -
  have r: "posts (fst (run [w0])) = [JSON_stringify (mk_result (JStr ''http://x'') ''<p>'')]"
    by (simp add: run_eq run_loop_Cons worker_defs world_defs js_or_def)
  from C1_result_shape [of "[w0]"] r
  have "\<exists>url html.
      JSON_stringify (mk_result (JStr ''http://x'') ''<p>'') =
        JSON_stringify (mk_result url html) \<and>
      get_prop (JSON_stringify (mk_result (JStr ''http://x'') ''<p>'')) ''url'' = Inr url \<and>
      get_prop (JSON_stringify (mk_result (JStr ''http://x'') ''<p>'')) ''bytes'' =
        Inr (JNum (int (length html))) \<and>
      get_prop (JSON_stringify (mk_result (JStr ''http://x'') ''<p>'')) ''status'' =
        Inr (JStr ''success'') \<and>
      get_prop (JSON_stringify (mk_result (JStr ''http://x'') ''<p>'')) ''html'' =
        Inr (JStr html) \<and>
      get_prop (JSON_stringify (mk_result (JStr ''http://x'') ''<p>'')) ''id'' = Inr JUndefined \<and>
      get_prop (JSON_stringify (mk_result (JStr ''http://x'') ''<p>'')) ''payload'' =
        Inr JUndefined"
    by simp
  with r show ?thesis
    by blast
qed

section \<open>Properties of the launcher\<close>

lemma launch_team_eq:
  "launch_team =
    ([Log ''Launching 3 crawler workers...'',
      Log ''Starting worker-1...'', Spawn ''node'' [''worker.js'', ''worker-1''],
      Log ''Starting worker-2...'', Spawn ''node'' [''worker.js'', ''worker-2''],
      Log ''Starting worker-3...'', Spawn ''node'' [''worker.js'', ''worker-3''],
      Log ''Crawler team launched. Press Ctrl+C to stop all workers.''], [0, 1, 2])"
  by (simp add: launch_team_def NUM_WORKERS_def workerId_def digit_char_def)

declare spawn_from.simps [simp del]
declare string_of_nat.simps [simp del]

lemma spawns_append: "spawns (xs @ ys) = spawns xs @ spawns ys"
  by (induction xs rule: spawns.induct) simp_all

lemma kills_append: "kills (xs @ ys) = kills xs @ kills ys"
  by (induction xs rule: kills.induct) simp_all

lemma exits_append: "exits (xs @ ys) = exits xs @ exits ys"
  by (induction xs rule: exits.induct) simp_all

lemma kills_map: "kills (map (\<lambda>worker. Kill worker s) ws) = map (\<lambda>worker. (worker, s)) ws"
  by (induction ws) simp_all

lemma exits_map: "exits (map (\<lambda>worker. Kill worker s) ws) = []"
  by (induction ws) simp_all

lemma spawns_kill: "spawns (map (\<lambda>worker. Kill worker s) ws) = []"
  by (induction ws) simp_all

lemma event_loop_spawns: "spawns (event_loop workers evs) = []"
  by (induction workers evs rule: event_loop.induct)
     (simp_all add: on_close_def on_error_def on_SIGINT_def on_SIGTERM_def spawns_append
       spawns_kill)

lemma event_loop_exits: "set (exits (event_loop workers evs)) \<subseteq> {0}"
  by (induction workers evs rule: event_loop.induct)
     (simp_all add: on_close_def on_error_def on_SIGINT_def on_SIGTERM_def exits_append
       exits_map)

lemma event_loop_kills: "SIGKILL \<notin> snd ` set (kills (event_loop workers evs))"
  by (induction workers evs rule: event_loop.induct)
     (auto simp: on_close_def on_error_def on_SIGINT_def on_SIGTERM_def kills_append
       kills_map)

lemma backoff_mono: "backoff base cap k \<le> backoff base cap (k + d)"
proof -
  have "(2::nat) ^ k \<le> 2 ^ (k + d)"
    by (rule power_increasing) simp_all
  then have "base * 2 ^ k \<le> base * 2 ^ (k + d)"
    by (rule mult_le_mono2)
  then show ?thesis
    unfolding backoff_def by (rule min.mono) simp
qed

subsection \<open>Shutdown\<close>

text \<open>
  Claim C2, as stated, fails: on SIGINT with all three workers still running (no close
  event has arrived) the launcher sends SIGINT to each worker and exits with status 0 at
  once. It waits for no worker and for no deadline, and no worker is force-terminated.
\<close>

theorem C2_signal_then_exit_counterexample:
  "launcher [GotSIGINT] =
    [Log ''Launching 3 crawler workers...'',
     Log ''Starting worker-1...'', Spawn ''node'' [''worker.js'', ''worker-1''],
     Log ''Starting worker-2...'', Spawn ''node'' [''worker.js'', ''worker-2''],
     Log ''Starting worker-3...'', Spawn ''node'' [''worker.js'', ''worker-3''],
     Log ''Crawler team launched. Press Ctrl+C to stop all workers.'',
     Log (CHR 0x0A # ''Shutting down crawler team...''),
     Kill 0 SIGINT, Kill 1 SIGINT, Kill 2 SIGINT, Exit 0]"
  by (simp add: launcher_def launch_team_eq on_SIGINT_def)

text \<open>
  Claim C2, amended. On SIGINT (respectively SIGTERM) the launcher logs the shutdown,
  sends that same signal once to every worker process it spawned, in spawn order, and
  exits at once with status 0. It handles no event after that: it does not wait for the
  workers to stop, has no grace deadline, never sends SIGKILL, and its exit status is
  never non-zero.
\<close>

theorem C2_signal_then_exit:
  "snd launch_team = [0, 1, 2] \<and>
   event_loop workers (GotSIGINT # evs) =
     Log (CHR 0x0A # ''Shutting down crawler team...'') #
     map (\<lambda>worker. Kill worker SIGINT) workers @ [Exit 0] \<and>
   event_loop workers (GotSIGTERM # evs) =
     Log (CHR 0x0A # ''Shutting down crawler team...'') #
     map (\<lambda>worker. Kill worker SIGTERM) workers @ [Exit 0] \<and>
   set (exits (launcher evs)) \<subseteq> {0} \<and>
   SIGKILL \<notin> snd ` set (kills (launcher evs))"
  using event_loop_exits [of "[0, 1, 2]" evs] event_loop_kills [of "[0, 1, 2]" evs]
  by (simp add: launch_team_eq on_SIGINT_def on_SIGTERM_def launcher_def exits_append
      kills_append)

theorem C2_signal_then_exit_witness:
  "exits (launcher [WorkerClose 1 None, GotSIGTERM, WorkerClose 0 (Some 0)]) = [0] \<and>
   kills (launcher [WorkerClose 1 None, GotSIGTERM, WorkerClose 0 (Some 0)]) =
     [(0, SIGTERM), (1, SIGTERM), (2, SIGTERM)] \<and>
   set (exits (launcher [WorkerClose 1 None, GotSIGTERM, WorkerClose 0 (Some 0)])) \<subseteq> {0} \<and>
   SIGKILL \<notin> snd ` set (kills (launcher [WorkerClose 1 None, GotSIGTERM, WorkerClose 0 (Some 0)]))"
proof -
  have "exits (launcher [WorkerClose 1 None, GotSIGTERM, WorkerClose 0 (Some 0)]) = [0]"
    "kills (launcher [WorkerClose 1 None, GotSIGTERM, WorkerClose 0 (Some 0)]) =
       [(0, SIGTERM), (1, SIGTERM), (2, SIGTERM)]"
    by (simp_all add: launcher_def launch_team_eq on_close_def on_SIGTERM_def exits_append
        kills_append)
  with C2_signal_then_exit [of "[0, 1, 2]" "[WorkerClose 1 None, GotSIGTERM, WorkerClose 0 (Some 0)]"]
  show ?thesis by blast
qed

subsection \<open>Worker exit\<close>

text \<open>
  Claim C3, as stated, fails: when worker-1 exits with code 1 the launcher logs the exit
  and does nothing else. The three spawns of the launch are the only ones; worker-1 is
  not respawned, after no delay.
\<close>

theorem C3_launcher_never_respawns_counterexample:
  "launcher [WorkerClose 0 (Some 1)] =
    [Log ''Launching 3 crawler workers...'',
     Log ''Starting worker-1...'', Spawn ''node'' [''worker.js'', ''worker-1''],
     Log ''Starting worker-2...'', Spawn ''node'' [''worker.js'', ''worker-2''],
     Log ''Starting worker-3...'', Spawn ''node'' [''worker.js'', ''worker-3''],
     Log ''Crawler team launched. Press Ctrl+C to stop all workers.'',
     Log ''worker-1 exited with code 1'']"
  by (simp add: launcher_def launch_team_eq on_close_def workerId_def show_code_def
      string_of_nat.simps digit_char_def)

text \<open>
  Claim C3, amended. When a worker process exits, the launcher's close handler only logs
  the worker's name and exit code. Whatever exits, errors and signals follow the launch,
  exactly the three workers of the launch are ever spawned: no worker is respawned and no
  restart delay is waited. The delay formula of the spec,
  \<open>min(base * 2^failureCount, cap)\<close>, is by itself non-decreasing in the failure count
  and never above the cap.
\<close>

theorem C3_launcher_never_respawns:
  "on_close i code = [Log (workerId i @ '' exited with code '' @ show_code code)] \<and>
   spawns (launcher evs) =
     [[''worker.js'', ''worker-1''], [''worker.js'', ''worker-2''], [''worker.js'', ''worker-3'']] \<and>
   backoff base cap k \<le> backoff base cap (k + d) \<and> backoff base cap k \<le> cap"
  using backoff_mono [of base cap k d]
  by (simp add: on_close_def launcher_def launch_team_eq spawns_append event_loop_spawns
      backoff_def)

section \<open>Properties of the job queue\<close>

lemma wf_empty: "wf_queue empty_queue"
  by (simp add: wf_queue_def empty_queue_def unleased_ids_def leased_ids_def)

lemma enqueue_ids:
  "enqueue j q = Inr q' \<Longrightarrow>
   unleased_ids q' = unleased_ids q @ [job_id j] \<and> leased_ids q' = leased_ids q \<and>
   completed q' = completed q \<and>
   job_id j \<notin> set (unleased_ids q @ leased_ids q @ completed q)"
  by (auto simp: enqueue_def unleased_ids_def leased_ids_def split: if_splits)

lemma lease_ids:
  "lease p now count q = (h, q') \<Longrightarrow>
   map job_id h = take count (unleased_ids q) \<and>
   unleased_ids q' = drop count (unleased_ids q) \<and>
   leased_ids q' = leased_ids q @ take count (unleased_ids q) \<and>
   completed q' = completed q"
  by (auto simp: lease_def Let_def unleased_ids_def leased_ids_def take_map drop_map
      case_prod_beta comp_def)

lemma complete_ids:
  "complete jid q = Inr q' \<Longrightarrow>
   unleased_ids q' = unleased_ids q \<and>
   leased_ids q' = filter (\<lambda>x. x \<noteq> jid) (leased_ids q) \<and>
   completed q' = completed q @ [jid] \<and> jid \<in> set (leased_ids q)"
  by (auto simp: complete_def unleased_ids_def leased_ids_def filter_map comp_def
      split: if_splits)

lemma reclaim_ids:
  "unleased_ids (reclaim p now q) =
     unleased_ids q @
     map (\<lambda>e. job_id (fst e))
       (filter (\<lambda>e. Suc (fst (snd e)) \<le> max_requeue p) (filter (expired now) (leased q)))"
  "leased_ids (reclaim p now q) =
     map (\<lambda>e. job_id (fst e)) (filter (\<lambda>e. \<not> expired now e) (leased q))"
  "completed (reclaim p now q) = completed q"
  by (simp_all add: reclaim_def Let_def unleased_ids_def leased_ids_def comp_def)

lemma distinct_add: "distinct (u @ l @ c) \<Longrightarrow> x \<notin> set (u @ l @ c) \<Longrightarrow> distinct ((u @ [x]) @ l @ c)"
  by auto

lemma distinct_move: "distinct ((a @ b) @ l @ c) \<Longrightarrow> distinct (b @ (l @ a) @ c)"
  by auto

lemma distinct_done:
  "distinct (u @ l @ c) \<Longrightarrow> x \<in> set l \<Longrightarrow> distinct (u @ filter (\<lambda>y. y \<noteq> x) l @ c @ [x])"
  by auto

lemma distinct_back:
  assumes "distinct (u @ map f xs @ c)"
  shows "distinct ((u @ map f (filter Q (filter P xs))) @ map f (filter (\<lambda>e. \<not> P e) xs) @ c)"
proof -
  from assms have inj: "inj_on f (set xs)" and d: "distinct xs"
    by (auto simp: distinct_map)
  have "f ` {x \<in> set xs. P x \<and> Q x} \<inter> f ` {x \<in> set xs. \<not> P x} = {}"
    using inj by (auto simp: inj_on_def)
  moreover have "distinct (map f (filter Q (filter P xs)))"
    "distinct (map f (filter (\<lambda>e. \<not> P e) xs))"
    using assms by (auto simp: distinct_map_filter)
  ultimately show ?thesis
    using assms by auto
qed

lemma wf_enqueue: "wf_queue q \<Longrightarrow> enqueue j q = Inr q' \<Longrightarrow> wf_queue q'"
  unfolding wf_queue_def using enqueue_ids [of j q q'] distinct_add by metis

lemma wf_lease:
  assumes "wf_queue q" and "lease p now count q = (h, q')"
  shows "wf_queue q'"
proof -
  let ?u = "unleased_ids q"
  from assms(1) have "distinct ((take count ?u @ drop count ?u) @ leased_ids q @ completed q)"
    unfolding wf_queue_def by (simp only: append_take_drop_id)
  then have "distinct (drop count ?u @ (leased_ids q @ take count ?u) @ completed q)"
    by (rule distinct_move)
  moreover from lease_ids [OF assms(2)]
  have "unleased_ids q' = drop count ?u" "leased_ids q' = leased_ids q @ take count ?u"
    "completed q' = completed q"
    by simp_all
  ultimately show ?thesis
    unfolding wf_queue_def by (simp only:)
qed

lemma wf_complete: "wf_queue q \<Longrightarrow> complete jid q = Inr q' \<Longrightarrow> wf_queue q'"
  unfolding wf_queue_def using complete_ids [of jid q q'] distinct_done by metis

lemma wf_reclaim: "wf_queue q \<Longrightarrow> wf_queue (reclaim p now q)"
  unfolding wf_queue_def reclaim_ids
  using distinct_back [of "unleased_ids q" "\<lambda>e. job_id (fst e)" "leased q" "completed q"]
  by (simp add: leased_ids_def)

lemma wf_apply_op: "wf_queue q \<Longrightarrow> wf_queue (snd (apply_op p x q))"
  by (cases x)
     (auto simp: wf_reclaim split: sum.splits intro: wf_enqueue wf_complete
       dest: wf_lease [OF _ surjective_pairing])

lemma wf_run_ops: "wf_queue q \<Longrightarrow> wf_queue (snd (run_ops p xs q))"
proof (induction xs arbitrary: q)
  case Nil
  then show ?case by simp
next
  case (Cons x xs)
  from Cons.prems have "wf_queue (snd (apply_op p x q))"
    by (rule wf_apply_op)
  then have "wf_queue (snd (run_ops p xs (snd (apply_op p x q))))"
    by (rule Cons.IH)
  then show ?case
    by (simp add: split_beta)
qed


lemma handed_ids:
  "set (map job_id (fst (apply_op p x q))) \<subseteq> set (unleased_ids q)"
  by (cases x) (auto simp: lease_def Let_def unleased_ids_def dest: in_set_takeD)

lemma handed_distinct: "wf_queue q \<Longrightarrow> distinct (map job_id (fst (apply_op p x q)))"
proof (cases x)
  case (Lease now count)
  assume "wf_queue q"
  then have "distinct (take count (unleased_ids q))"
    by (simp add: wf_queue_def)
  then show ?thesis
    using lease_ids [OF surjective_pairing, of p now count q] Lease by simp
qed simp_all

lemma handed_leased:
  "set (map job_id (fst (apply_op p x q))) \<subseteq> set (leased_ids (snd (apply_op p x q)))"
proof (cases x)
  case (Lease now count)
  then show ?thesis
    using lease_ids [OF surjective_pairing, of p now count q] by simp
qed simp_all

lemma held_mono:
  "\<not> is_reclaim x \<Longrightarrow>
   set (leased_ids q @ completed q) \<subseteq>
   set (leased_ids (snd (apply_op p x q)) @ completed (snd (apply_op p x q)))"
proof (cases x)
  case (Enqueue j)
  then show ?thesis
    using enqueue_ids [of j q] by (auto split: sum.splits)
next
  case (Lease now count)
  then show ?thesis
    using lease_ids [OF surjective_pairing, of p now count q] by auto
next
  case (Complete jid)
  then show ?thesis
    using complete_ids [of jid q] by (auto split: sum.splits)
qed simp

lemma never_handed:
  "wf_queue q \<Longrightarrow> \<forall>x \<in> set xs. \<not> is_reclaim x \<Longrightarrow>
   set (map job_id (fst (run_ops p xs q))) \<inter> set (leased_ids q @ completed q) = {}"
proof (induction xs arbitrary: q)
  case Nil
  then show ?case by simp
next
  case (Cons x xs)
  let ?q' = "snd (apply_op p x q)"
  have wf': "wf_queue ?q'"
    using Cons.prems(1) by (rule wf_apply_op)
  have first: "set (map job_id (fst (apply_op p x q))) \<inter> set (leased_ids q @ completed q) = {}"
    using handed_ids [of p x q] Cons.prems(1) by (auto simp: wf_queue_def)
  have "set (map job_id (fst (run_ops p xs ?q'))) \<inter> set (leased_ids ?q' @ completed ?q') = {}"
    using wf' Cons.prems(2) by (intro Cons.IH) simp_all
  moreover have "set (leased_ids q @ completed q) \<subseteq> set (leased_ids ?q' @ completed ?q')"
    using Cons.prems(2) by (intro held_mono) simp
  ultimately have rest:
    "set (map job_id (fst (run_ops p xs ?q'))) \<inter> set (leased_ids q @ completed q) = {}"
    by blast
  have "fst (run_ops p (x # xs) q) = fst (apply_op p x q) @ fst (run_ops p xs ?q')"
    by (simp add: split_beta)
  with first rest show ?case
    by (simp add: Int_Un_distrib2)
qed

lemma handed_once:
  "wf_queue q \<Longrightarrow> \<forall>x \<in> set xs. \<not> is_reclaim x \<Longrightarrow>
   distinct (map job_id (fst (run_ops p xs q)))"
proof (induction xs arbitrary: q)
  case Nil
  then show ?case by simp
next
  case (Cons x xs)
  let ?q' = "snd (apply_op p x q)"
  have wf': "wf_queue ?q'"
    using Cons.prems(1) by (rule wf_apply_op)
  have d1: "distinct (map job_id (fst (apply_op p x q)))"
    using Cons.prems(1) by (rule handed_distinct)
  have d2: "distinct (map job_id (fst (run_ops p xs ?q')))"
    using wf' Cons.prems(2) by (intro Cons.IH) simp_all
  have "set (map job_id (fst (run_ops p xs ?q'))) \<inter> set (leased_ids ?q' @ completed ?q') = {}"
    using wf' Cons.prems(2) by (intro never_handed) simp_all
  then have d3: "set (map job_id (fst (apply_op p x q))) \<inter>
      set (map job_id (fst (run_ops p xs ?q'))) = {}"
    using handed_leased [of p x q] by auto
  have "fst (run_ops p (x # xs) q) = fst (apply_op p x q) @ fst (run_ops p xs ?q')"
    by (simp add: split_beta)
  with d1 d2 d3 show ?case
    by simp
qed

lemma wf_leases:
  "wf_queue q \<Longrightarrow> distinct (leased_ids q) \<and> set (leased_ids q) \<inter> set (unleased_ids q) = {}"
  by (auto simp: wf_queue_def)

text \<open>
  Claim C6. In every state the queue reaches from empty, by any calls of enqueue, lease,
  complete and reclaim in any order, each job has at most one outstanding lease, and a
  leased job is not in the unleased pool. From such a state, as long as no reclaim is
  called, no job is handed out twice by lease, and no job is handed out that already has
  an outstanding lease.
\<close>

theorem C6_at_most_one_lease:
  "distinct (leased_ids (snd (run_ops p xs empty_queue))) \<and>
   set (leased_ids (snd (run_ops p xs empty_queue))) \<inter>
     set (unleased_ids (snd (run_ops p xs empty_queue))) = {} \<and>
   ((\<forall>y \<in> set ys. \<not> is_reclaim y) \<longrightarrow>
      distinct (map job_id (fst (run_ops p ys (snd (run_ops p xs empty_queue))))) \<and>
      set (map job_id (fst (run_ops p ys (snd (run_ops p xs empty_queue))))) \<inter>
        set (leased_ids (snd (run_ops p xs empty_queue))) = {})"
proof -
  let ?q = "snd (run_ops p xs empty_queue)"
  have wf: "wf_queue ?q"
    using wf_empty by (rule wf_run_ops)
  have "set (map job_id (fst (run_ops p ys ?q))) \<inter> set (leased_ids ?q) = {}"
    if "\<forall>y \<in> set ys. \<not> is_reclaim y"
    using never_handed [OF wf that, of p] by auto
  then show ?thesis
    using wf_leases [OF wf] handed_once [OF wf, of ys p] by blast
qed

lemmas queue_defs = enqueue_def lease_def complete_def reclaim_def expired_def empty_queue_def
  unleased_ids_def leased_ids_def Let_def

theorem C6_at_most_one_lease_witness:
  "map job_id (fst (run_ops policy0 [Lease 5 1, Lease 6 1, Lease 7 1]
      (snd (run_ops policy0 [Enqueue qjob_a, Enqueue qjob_b] empty_queue)))) = [''a'', ''b''] \<and>
   distinct (map job_id (fst (run_ops policy0 [Lease 5 1, Lease 6 1, Lease 7 1]
      (snd (run_ops policy0 [Enqueue qjob_a, Enqueue qjob_b] empty_queue))))) \<and>
   distinct (leased_ids (snd (run_ops policy0 [Enqueue qjob_a, Enqueue qjob_b] empty_queue))) \<and>
   map job_id (fst (run_ops policy0 [Lease 5 1, Reclaim 40, Lease 41 2]
      (snd (run_ops policy0 [Enqueue qjob_a, Enqueue qjob_b] empty_queue)))) =
     [''a'', ''b'', ''a'']"
proof -
  have n: "\<forall>y \<in> set [Lease 5 1, Lease 6 1, Lease 7 1]. \<not> is_reclaim y"
    by simp
  have v: "map job_id (fst (run_ops policy0 [Lease 5 1, Lease 6 1, Lease 7 1]
      (snd (run_ops policy0 [Enqueue qjob_a, Enqueue qjob_b] empty_queue)))) = [''a'', ''b'']"
    by (simp add: queue_defs qjob_a_def qjob_b_def policy0_def)
  have r: "map job_id (fst (run_ops policy0 [Lease 5 1, Reclaim 40, Lease 41 2]
      (snd (run_ops policy0 [Enqueue qjob_a, Enqueue qjob_b] empty_queue)))) =
     [''a'', ''b'', ''a'']"
    by (simp add: queue_defs qjob_a_def qjob_b_def policy0_def)
  from C6_at_most_one_lease [of policy0 "[Enqueue qjob_a, Enqueue qjob_b]"
      "[Lease 5 1, Lease 6 1, Lease 7 1]"] n v r
  show ?thesis by blast
qed

section \<open>Properties of the dispatch server\<close>

lemma manifest_ok_init: "manifest_ok init_server"
  by (simp add: manifest_ok_def init_server_def wf_empty) (simp add: empty_queue_def)

lemma manifest_ok_submit: "manifest_ok s \<Longrightarrow> submitResult r s = Inr s' \<Longrightarrow> manifest_ok s'"
  by (auto simp: manifest_ok_def submitResult_def split: option.splits if_splits sum.splits
      dest: wf_complete complete_ids)

lemma manifest_ok_serve: "manifest_ok s \<Longrightarrow> manifest_ok (serve p x s)"
proof (cases x)
  case (AddJob j)
  assume "manifest_ok s"
  then show ?thesis
    using AddJob enqueue_ids [of j "queue s"] wf_enqueue [of "queue s" j]
    by (auto simp: manifest_ok_def split: sum.splits)
next
  case (GetJobs now count)
  assume "manifest_ok s"
  then show ?thesis
    using GetJobs lease_ids [OF surjective_pairing, of p now count "queue s"]
      wf_lease [OF _ surjective_pairing, of "queue s" p now count]
    by (simp add: manifest_ok_def pullJobs_def split_beta)
next
  case (PostResults r)
  assume "manifest_ok s"
  then show ?thesis
    using PostResults manifest_ok_submit [of s r]
    by (simp add: post_results_def split: sum.splits)
next
  case (Tick now)
  assume "manifest_ok s"
  then show ?thesis
    using Tick by (simp add: manifest_ok_def wf_reclaim reclaim_ids)
qed

lemma manifest_ok_serve_all: "manifest_ok s \<Longrightarrow> manifest_ok (serve_all p xs s)"
  by (induction xs arbitrary: s) (simp_all add: manifest_ok_serve)

lemma duplicate_rejected:
  "result_job r = Some jid \<Longrightarrow> jid \<in> set (map fst (manifest s)) \<Longrightarrow>
   submitResult r s = Inl DuplicateError \<and> post_results r s = (409, s)"
  by (simp add: submitResult_def post_results_def http_status_def)

lemma one_entry:
  "distinct (map fst m) \<Longrightarrow> jid \<in> set (map fst m) \<Longrightarrow>
   length (filter (\<lambda>e. fst e = jid) m) = 1"
proof (induction m)
  case Nil
  then show ?case by simp
next
  case (Cons e m)
  show ?case
  proof (cases "fst e = jid")
    case True
    with Cons.prems have "\<forall>x \<in> set m. fst x \<noteq> jid"
      by (auto simp: image_iff)
    then have "filter (\<lambda>e. fst e = jid) m = []"
      by (simp add: filter_empty_conv)
    with True show ?thesis by simp
  next
    case False
    with Cons show ?thesis by auto
  qed
qed

lemma manifest_ok_distinct: "manifest_ok s \<Longrightarrow> distinct (map fst (manifest s))"
  by (simp add: manifest_ok_def wf_queue_def)

text \<open>
  Claim C7. A result submitted for a job identifier that is already in the Manifest is
  rejected as a duplicate (HTTP 409) and the server's state, so the Manifest and the
  queue, is unchanged. In every state the server reaches, the Manifest has no identifier
  twice and lists exactly the completed jobs: one entry for every completed job.
\<close>

theorem C7_duplicate_result_rejected:
  "(result_job r = Some jid \<and> jid \<in> set (map fst (manifest s)) \<longrightarrow>
      submitResult r s = Inl DuplicateError \<and> post_results r s = (409, s)) \<and>
   distinct (map fst (manifest (serve_all p xs init_server))) \<and>
   map fst (manifest (serve_all p xs init_server)) = completed (queue (serve_all p xs init_server)) \<and>
   (\<forall>j \<in> set (completed (queue (serve_all p xs init_server))).
      length (filter (\<lambda>e. fst e = j) (manifest (serve_all p xs init_server))) = 1)"
proof -
  let ?s = "serve_all p xs init_server"
  have ok: "manifest_ok ?s"
    using manifest_ok_init by (rule manifest_ok_serve_all)
  then have d: "distinct (map fst (manifest ?s))"
    by (rule manifest_ok_distinct)
  have c: "map fst (manifest ?s) = completed (queue ?s)"
    using ok by (simp add: manifest_ok_def)
  have "length (filter (\<lambda>e. fst e = j) (manifest ?s)) = 1" if "j \<in> set (completed (queue ?s))" for j
    using one_entry [OF d, of j] that c by simp
  with d c duplicate_rejected [of r jid s] show ?thesis
    by blast
qed

lemmas server_defs = served_def init_server_def pullJobs_def post_results_def submitResult_def
  http_status_def result_a_def

lemma served_eq:
  "served =
     \<lparr>queue = \<lparr>unleased = [], leased = [(qjob_b, 0, 36)], completed = [''a''], dead_letter = []\<rparr>,
      sink = [result_a], manifest = [(''a'', 0)]\<rparr>"
  by (simp add: server_defs queue_defs qjob_a_def qjob_b_def policy0_def)

theorem C7_duplicate_result_rejected_witness:
  "map job_id (fst (pullJobs policy0 5 1 (serve_all policy0 [AddJob qjob_a, AddJob qjob_b] init_server)))
     = [''a''] \<and>
   result_job result_a = Some ''a'' \<and> ''a'' \<in> set (map fst (manifest served)) \<and>
   submitResult result_a served = Inl DuplicateError \<and>
   post_results result_a served = (409, served) \<and>
   manifest (snd (post_results result_a served)) = [(''a'', 0)] \<and>
   completed (queue served) = [''a''] \<and>
   length (filter (\<lambda>e. fst e = ''a'') (manifest served)) = 1"
proof -
  have p: "map job_id (fst (pullJobs policy0 5 1
      (serve_all policy0 [AddJob qjob_a, AddJob qjob_b] init_server))) = [''a'']"
    by (simp add: server_defs queue_defs qjob_a_def qjob_b_def policy0_def)
  have h: "result_job result_a = Some ''a''" "''a'' \<in> set (map fst (manifest served))"
    "manifest served = [(''a'', 0)]" "completed (queue served) = [''a'']"
    by (simp_all add: served_eq) (simp add: result_a_def)
  note t = C7_duplicate_result_rejected [of result_a "''a''" served policy0
      "[AddJob qjob_a, AddJob qjob_b, GetJobs 5 1, GetJobs 6 1, PostResults result_a]",
      folded served_def]
  from t p h show ?thesis
    by simp
qed

section \<open>The jobs of a poll after the first\<close>



end
